theory Spec2Isabelle
  imports Main "HOL-Library.Sublist"
begin

section \<open>DocItemLoader: resolving API definition references\<close>

text \<open>
  A shallow embedding of \<^verbatim>\<open>src/api-extractor/src/DocItemLoader.ts\<close>. The class
  keeps a cache of loaded packages and reads API manifests from the project's
  \<^verbatim>\<open>node_modules\<close> folder. Exceptions are values of type \<open>error\<close>; the three
  effects of the code (the \<^verbatim>\<open>reportError\<close> callback, the file system calls and
  \<^verbatim>\<open>console.log\<close>) are logged in a record that every operation returns updated.
\<close>

subsection \<open>Strings and paths of the runtime\<close>

text \<open>
  \<^verbatim>\<open>String.prototype.split\<close> with a separator of one character: the pieces between
  the separators, never an empty array.
\<close>

fun split_on :: "char \<Rightarrow> string \<Rightarrow> string list" where
  "split_on c [] = [[]]"
| "split_on c (x # xs) =
     (if x = c then [] # split_on c xs
      else (case split_on c xs of
              [] \<Rightarrow> [[x]]
            | y # ys \<Rightarrow> (x # y) # ys))"

text \<open>\<^verbatim>\<open>Array.prototype.join\<close> with the separator \<^verbatim>\<open>/\<close>.\<close>

fun join_slash :: "string list \<Rightarrow> string" where
  "join_slash [] = []"
| "join_slash [p] = p"
| "join_slash (p # q # ps) = p @ ''/'' @ join_slash (q # ps)"

text \<open>
  The POSIX flavour of Node's \<^verbatim>\<open>path\<close> module. \<^verbatim>\<open>normalizeArray\<close> walks the
  parts of a path, dropping empty parts and \<^verbatim>\<open>.\<close> and resolving \<^verbatim>\<open>..\<close> against
  the parts kept so far (the third argument is the array \<^verbatim>\<open>res\<close> of the loop).
\<close>

fun normalizeArray :: "string list \<Rightarrow> bool \<Rightarrow> string list \<Rightarrow> string list" where
  "normalizeArray [] allowAboveRoot res = res"
| "normalizeArray (p # ps) allowAboveRoot res =
     (if p = [] \<or> p = ''.'' then normalizeArray ps allowAboveRoot res
      else if p = ''..'' then
        (if res \<noteq> [] \<and> last res \<noteq> ''..'' then normalizeArray ps allowAboveRoot (butlast res)
         else if allowAboveRoot then normalizeArray ps allowAboveRoot (res @ [''..''])
         else normalizeArray ps allowAboveRoot res)
      else normalizeArray ps allowAboveRoot (res @ [p]))"

definition isAbsolute :: "string \<Rightarrow> bool" where
  "isAbsolute path = (case path of [] \<Rightarrow> False | c # _ \<Rightarrow> c = CHR ''/'')"

definition normalize :: "string \<Rightarrow> string" where
  "normalize path =
     (let trailingSlash = (path \<noteq> [] \<and> last path = CHR ''/'');
          p1 = join_slash (normalizeArray (split_on CHR ''/'' path) (\<not> isAbsolute path) []);
          p2 = (if p1 = [] \<and> \<not> isAbsolute path then ''.'' else p1);
          p3 = (if p2 \<noteq> [] \<and> trailingSlash then p2 @ ''/'' else p2)
      in (if isAbsolute path then ''/'' else []) @ p3)"

text \<open>
  \<^verbatim>\<open>path.join\<close> on strings: the non-empty segments are joined with \<^verbatim>\<open>/\<close> and
  the result is normalized.
\<close>

definition path_join :: "string list \<Rightarrow> string" where
  "path_join segments = normalize (join_slash (filter (\<lambda>s. s \<noteq> []) segments))"

text \<open>
  \<^verbatim>\<open>path.basename\<close> without an extension argument: the last portion of the path,
  trailing separators ignored.
\<close>

definition basename :: "string \<Rightarrow> string" where
  "basename path = rev (takeWhile (\<lambda>c. c \<noteq> CHR ''/'') (dropWhile (\<lambda>c. c = CHR ''/'') (rev path)))"

text \<open>
  Two predicates on the parts of a path, for the proofs about \<open>normalize\<close>: a list of
  parts is clean when no part is empty, \<^verbatim>\<open>.\<close> or \<^verbatim>\<open>..\<close>, and it is in normal form
  when it is clean, after the leading \<^verbatim>\<open>..\<close> parts that a relative path may keep.
\<close>

definition clean :: "string list \<Rightarrow> bool" where
  "clean segs = list_all (\<lambda>p. p \<noteq> [] \<and> p \<noteq> ''.'' \<and> p \<noteq> ''..'') segs"

definition normal :: "bool \<Rightarrow> string list \<Rightarrow> bool" where
  "normal up segs = clean (if up then dropWhile (\<lambda>p. p = ''..'') segs else segs)"

text \<open>\<^verbatim>\<open>os.EOL\<close> on POSIX: one line feed.\<close>

definition EOL :: string where
  "EOL = [CHR 0x0A]"

subsection \<open>Errors and values\<close>

text \<open>
  What the code can throw: the \<^verbatim>\<open>TypeError\<close> of the runtime (the \<^verbatim>\<open>in\<close>
  operator applied to \<^verbatim>\<open>undefined\<close>, \<^verbatim>\<open>path.join\<close> given a segment that is not a
  string), the failure of \<^verbatim>\<open>JsonFile.loadJsonFile\<close> on the file of the given path,
  and \<^verbatim>\<open>new Error(message)\<close>.
\<close>

datatype error = TypeError | JsonLoadError string | Error string

text \<open>
  \<^verbatim>\<open>path.join\<close> as the code calls it: every argument must be a string, and
  \<^verbatim>\<open>undefined\<close> (here \<open>None\<close>) makes the call throw a \<^verbatim>\<open>TypeError\<close>.
\<close>

definition path_join_args :: "string option list \<Rightarrow> error + string" where
  "path_join_args args =
     (if list_ex (\<lambda>a. a = None) args then Inl TypeError
      else Inr (path_join (map (\<lambda>a. case a of None \<Rightarrow> [] | Some s \<Rightarrow> s) args)))"

text \<open>
  Modelled from the spec: the interfaces \<^verbatim>\<open>IDocItem\<close>, \<^verbatim>\<open>IDocClass\<close> and
  \<^verbatim>\<open>IDocPackage\<close> are imported from \<^verbatim>\<open>./IDocItem\<close>, which is not among the
  sources. A documentation item has a kind; only a class-like item carries a
  \<^verbatim>\<open>members\<close> mapping from member names to items (\<open>None\<close> is a \<^verbatim>\<open>members\<close>
  property that is \<^verbatim>\<open>undefined\<close>). A package is a mapping from export names to
  items.
\<close>

datatype DocItem = DocItem (kind: string) (members: "(string \<Rightarrow> DocItem option) option")

record DocPackage =
  exports :: "string \<rightharpoonup> DocItem"

text \<open>
  Modelled from the spec: the interface \<^verbatim>\<open>IApiDefinitionReference\<close> is imported from
  \<^verbatim>\<open>./IApiDefinitionReference\<close>, which is not among the sources. Its shape is
  \<^verbatim>\<open>{ scopeName?: string, packageName: string, exportName: string, memberName?: string }\<close>;
  an optional field that is absent is \<open>None\<close>.
\<close>

record ApiDefinitionReference =
  scopeName :: "string option"
  packageName :: string
  exportName :: string
  memberName :: "string option"

text \<open>The truth value of an optional string in a condition: absent and empty are false.\<close>

definition truthy :: "string option \<Rightarrow> bool" where
  "truthy v = (case v of None \<Rightarrow> False | Some s \<Rightarrow> s \<noteq> [])"

text \<open>
  Modelled from the spec: the export section of a package and the member section of a
  class are mappings from names to items, as \<^verbatim>\<open>JsonFile.loadJsonFile\<close> (not among the
  sources) hands them over. On them \<^verbatim>\<open>name in obj\<close> holds exactly when the mapping has
  the key, and \<^verbatim>\<open>obj[name]\<close> is the item under it.
\<close>

subsection \<open>The file system and the effects\<close>

text \<open>
  Modelled from the spec: \<^verbatim>\<open>JsonFile\<close> (\<^verbatim>\<open>loadJsonFile\<close>,
  \<^verbatim>\<open>validateSchema\<close>) and the bundled \<^verbatim>\<open>api-json-schema.json\<close> are not among
  the sources. A file either does not parse as JSON or parses to a document; a document
  either violates the bundled schema, with the detail the validator composes, or conforms
  to it and is then the package the code casts it to. \<^verbatim>\<open>loadJsonFile\<close> throws when
  the file is missing or does not parse. \<^verbatim>\<open>validateSchema\<close> calls its error callback
  with the detail exactly when the document violates the schema: where the code calls it,
  the model distinguishes the two kinds of document. The bundled schema itself always
  loads.
\<close>

datatype document = Violating string | Conforming DocPackage

datatype fs_file = Unparsable | Parsed document

record Env =
  files :: "string \<rightharpoonup> fs_file"
  dirname :: string

definition existsSync :: "Env \<Rightarrow> string \<Rightarrow> bool" where
  "existsSync env path = (files env path \<noteq> None)"

definition loadJsonFile :: "Env \<Rightarrow> string \<Rightarrow> error + document" where
  "loadJsonFile env path =
     (case files env path of
        None \<Rightarrow> Inl (JsonLoadError path)
      | Some Unparsable \<Rightarrow> Inl (JsonLoadError path)
      | Some (Parsed doc) \<Rightarrow> Inr doc)"

datatype fs_call = ExistsSync string | LoadJsonFile string

record World =
  reported :: "string list"
  accessed :: "fs_call list"
  console :: "string list"

definition reportError :: "string \<Rightarrow> World \<Rightarrow> World" where
  "reportError message w = w\<lparr>reported := reported w @ [message]\<rparr>"

definition fs_access :: "fs_call \<Rightarrow> World \<Rightarrow> World" where
  "fs_access c w = w\<lparr>accessed := accessed w @ [c]\<rparr>"

definition console_log :: "string \<Rightarrow> World \<Rightarrow> World" where
  "console_log line w = w\<lparr>console := console w @ [line]\<rparr>"

subsection \<open>The loader\<close>

record DocItemLoader =
  cache :: "string \<rightharpoonup> DocPackage"
  projectFolder :: string

text \<open>The constructor: the project folder must hold a \<^verbatim>\<open>package.json\<close>.\<close>

definition new_DocItemLoader :: "Env \<Rightarrow> string \<Rightarrow> World \<Rightarrow> (error + DocItemLoader) \<times> World" where
  "new_DocItemLoader env folder w =
     (let w1 = fs_access (ExistsSync (path_join [folder, ''package.json''])) w
      in if \<not> existsSync env (path_join [folder, ''package.json''])
         then (Inl (Error (''An NPM project was not found in the specified folder: '' @ folder)), w1)
         else (Inr \<lparr>cache = Map.empty, projectFolder = folder\<rparr>, w1))"

text \<open>
  \<^verbatim>\<open>loadPackageIntoCache\<close>: load the manifest, load the schema, validate, and only
  then store the package under the first dot-separated piece of the file's base name.
\<close>

definition validationErrorMessage :: "string \<Rightarrow> string" where
  "validationErrorMessage errorDetail =
     ''ApiJsonGenerator validation error - output does not conform to api-json-schema.json:''
       @ EOL @ errorDetail"

definition loadPackageIntoCache ::
  "Env \<Rightarrow> string \<Rightarrow> DocItemLoader \<Rightarrow> World \<Rightarrow> (error + DocPackage) \<times> DocItemLoader \<times> World" where
  "loadPackageIntoCache env packageJsonFilePath this w =
     (let w1 = fs_access (LoadJsonFile packageJsonFilePath) w
      in case loadJsonFile env packageJsonFilePath of
           Inl e \<Rightarrow> (Inl e, this, w1)
         | Inr doc \<Rightarrow>
             (let w2 = fs_access
                         (LoadJsonFile (path_join [dirname env, ''./schemas/api-json-schema.json''])) w1
              in case doc of
                   Violating errorDetail \<Rightarrow>
                     (let errorMessage = validationErrorMessage errorDetail
                      in (Inl (Error errorMessage), this,
                          console_log (EOL @ ''ERROR: '' @ errorMessage @ EOL @ EOL) w2))
                 | Conforming apiPackage \<Rightarrow>
                     (let packageName = hd (split_on CHR ''.'' (basename packageJsonFilePath))
                      in (Inr apiPackage,
                          this\<lparr>cache := (cache this)(packageName \<mapsto> apiPackage)\<rparr>, w2))))"

text \<open>The cache key of a reference (lines 96 to 103 of the source).\<close>

definition cachePackageName :: "ApiDefinitionReference \<Rightarrow> string" where
  "cachePackageName apiDefinitionRef =
     (if truthy (scopeName apiDefinitionRef)
      then (case scopeName apiDefinitionRef of None \<Rightarrow> [] | Some s \<Rightarrow> s) @ ''/''
             @ packageName apiDefinitionRef
      else packageName apiDefinitionRef)"

definition notFoundMessage :: "string \<Rightarrow> string" where
  \<open>notFoundMessage name =
     ''@inheritdoc referenced package ("'' @ name @ ''") not found in node modules.''\<close>

definition getPackage ::
  "Env \<Rightarrow> ApiDefinitionReference \<Rightarrow> DocItemLoader \<Rightarrow> World
     \<Rightarrow> (error + DocPackage option) \<times> DocItemLoader \<times> World" where
  "getPackage env apiDefinitionRef this w =
     (case cache this (cachePackageName apiDefinitionRef) of
        Some docPackage \<Rightarrow> (Inr (Some docPackage), this, w)
      | None \<Rightarrow>
          if packageName apiDefinitionRef = [] then (Inr None, this, w)
          else
            (case path_join_args
                    [Some (projectFolder this), Some ''node_modules'',
                     scopeName apiDefinitionRef, Some (packageName apiDefinitionRef),
                     Some (''dist/'' @ packageName apiDefinitionRef @ ''.api.json'')] of
               Inl e \<Rightarrow> (Inl e, this, w)
             | Inr packageJsonFilePath \<Rightarrow>
                 (let w1 = fs_access (ExistsSync (path_join [packageJsonFilePath])) w
                  in if \<not> existsSync env (path_join [packageJsonFilePath])
                     then (Inr None, this,
                           reportError (notFoundMessage (packageName apiDefinitionRef)) w1)
                     else (case loadPackageIntoCache env packageJsonFilePath this w1 of
                             (Inl e, this', w2) \<Rightarrow> (Inl e, this', w2)
                           | (Inr apiPackage, this', w2) \<Rightarrow> (Inr (Some apiPackage), this', w2)))))"

text \<open>
  \<^verbatim>\<open>getItem\<close>. The reference itself may be absent (\<open>None\<close>). The result
  \<open>Inr None\<close> is \<^verbatim>\<open>undefined\<close>.
\<close>

definition getItem ::
  "Env \<Rightarrow> ApiDefinitionReference option \<Rightarrow> DocItemLoader \<Rightarrow> World
     \<Rightarrow> (error + DocItem option) \<times> DocItemLoader \<times> World" where
  "getItem env reference this w =
     (case reference of
        None \<Rightarrow> (Inr None, this, reportError ''Expected reference within {@inheritdoc} tag'' w)
      | Some apiDefinitionRef \<Rightarrow>
          (case getPackage env apiDefinitionRef this w of
             (Inl e, this', w') \<Rightarrow> (Inl e, this', w')
           | (Inr None, this', w') \<Rightarrow> (Inr None, this', w')
           | (Inr (Some docPackage), this', w') \<Rightarrow>
               (case exports docPackage (exportName apiDefinitionRef) of
                  Some docItem \<Rightarrow>
                    if truthy (memberName apiDefinitionRef) then
                      (case members docItem of
                         None \<Rightarrow> (Inl TypeError, this', w')
                       | Some ms \<Rightarrow>
                           (case memberName apiDefinitionRef of
                              None \<Rightarrow> (Inr (Some docItem), this', w')
                            | Some m \<Rightarrow>
                                (case ms m of
                                   Some member \<Rightarrow> (Inr (Some member), this', w')
                                 | None \<Rightarrow> (Inr None, this', w'))))
                    else (Inr (Some docItem), this', w')
                | None \<Rightarrow> (Inr None, this', w'))))"

subsection \<open>An example project\<close>

text \<open>
  A project folder with its \<^verbatim>\<open>package.json\<close> and five installed packages:
  \<^verbatim>\<open>foo\<close>, the scoped \<^verbatim>\<open>@ms/core\<close>, a package whose name begins with a dot, one
  whose manifest violates the schema and one whose manifest is not JSON. The theorems
  below are evaluated on it.
\<close>

definition widget :: DocItem where
  "widget = DocItem ''class'' (Some [''render'' \<mapsto> DocItem ''method'' None])"

definition fooPackage :: DocPackage where
  "fooPackage = \<lparr>exports = [''Widget'' \<mapsto> widget, ''helper'' \<mapsto> DocItem ''function'' None]\<rparr>"

definition corePackage :: DocPackage where
  "corePackage = \<lparr>exports = [''Guid'' \<mapsto> DocItem ''class'' (Some Map.empty)]\<rparr>"

definition hiddenPackage :: DocPackage where
  "hiddenPackage = \<lparr>exports = [''Secret'' \<mapsto> DocItem ''interface'' (Some Map.empty)]\<rparr>"

definition project :: Env where
  "project =
     \<lparr>files =
        [''/proj/package.json'' \<mapsto> Parsed (Violating ''not an API manifest''),
         ''/proj/node_modules/foo/dist/foo.api.json'' \<mapsto> Parsed (Conforming fooPackage),
         ''/proj/node_modules/@ms/core/dist/core.api.json'' \<mapsto> Parsed (Conforming corePackage),
         ''/proj/node_modules/.hidden/dist/.hidden.api.json'' \<mapsto> Parsed (Conforming hiddenPackage),
         ''/proj/node_modules/bad/dist/bad.api.json'' \<mapsto> Parsed (Violating ''exports is missing''),
         ''/proj/node_modules/torn/dist/torn.api.json'' \<mapsto> Unparsable],
      dirname = ''/lib''\<rparr>"

definition freshLoader :: DocItemLoader where
  "freshLoader = \<lparr>cache = Map.empty, projectFolder = ''/proj''\<rparr>"

definition fooLoader :: DocItemLoader where
  "fooLoader = \<lparr>cache = [''foo'' \<mapsto> fooPackage], projectFolder = ''/proj''\<rparr>"

definition quiet :: World where
  "quiet = \<lparr>reported = [], accessed = [], console = []\<rparr>"

text \<open>A loader whose cached package \<^verbatim>\<open>foo\<close> has a class without members.\<close>

definition bareLoader :: DocItemLoader where
  "bareLoader =
     \<lparr>cache = [''foo'' \<mapsto> \<lparr>exports = [''Widget'' \<mapsto> DocItem ''class'' (Some Map.empty)]\<rparr>],
      projectFolder = ''/proj''\<rparr>"

text \<open>
  A loader whose cached package \<^verbatim>\<open>foo\<close> has a class \<^verbatim>\<open>Widget\<close> without a
  \<^verbatim>\<open>members\<close> property.
\<close>

definition plainPackage :: DocPackage where
  "plainPackage = \<lparr>exports = [''Widget'' \<mapsto> DocItem ''class'' None]\<rparr>"

definition plainLoader :: DocItemLoader where
  "plainLoader = \<lparr>cache = [''foo'' \<mapsto> plainPackage], projectFolder = ''/proj''\<rparr>"

text \<open>The reference \<^verbatim>\<open>{ packageName: "foo", exportName: "Widget", memberName: "render" }\<close>.\<close>

definition widgetRenderRef :: ApiDefinitionReference where
  "widgetRenderRef =
     \<lparr>scopeName = None, packageName = ''foo'', exportName = ''Widget'',
      memberName = Some ''render''\<rparr>"

text \<open>
  A reference without scope to a package that is not installed, and one to an export
  that \<^verbatim>\<open>foo\<close> does not have.
\<close>

definition ghostRef :: ApiDefinitionReference where
  "ghostRef =
     \<lparr>scopeName = None, packageName = ''ghost'', exportName = ''Spook'', memberName = None\<rparr>"

definition toStringRef :: ApiDefinitionReference where
  "toStringRef =
     \<lparr>scopeName = Some [], packageName = ''foo'', exportName = ''toString'', memberName = None\<rparr>"

text \<open>The same scoped reference resolved twice on one loader.\<close>

definition scopedRef :: ApiDefinitionReference where
  "scopedRef =
     \<lparr>scopeName = Some ''@ms'', packageName = ''core'', exportName = ''Guid'', memberName = None\<rparr>"

definition scopedFirst :: "(error + DocPackage option) \<times> DocItemLoader \<times> World" where
  "scopedFirst = getPackage project scopedRef freshLoader quiet"

definition scopedSecond :: "(error + DocPackage option) \<times> DocItemLoader \<times> World" where
  "scopedSecond = getPackage project scopedRef (fst (snd scopedFirst)) (snd (snd scopedFirst))"

text \<open>
  A reference to the package whose name begins with a dot, and a reference with an empty
  package name resolved after it on the same loader.
\<close>

definition hiddenRef :: ApiDefinitionReference where
  "hiddenRef =
     \<lparr>scopeName = Some [], packageName = ''.hidden'', exportName = ''Secret'', memberName = None\<rparr>"

definition localRef :: ApiDefinitionReference where
  "localRef =
     \<lparr>scopeName = None, packageName = [], exportName = ''Secret'', memberName = None\<rparr>"

definition hiddenFirst :: "(error + DocPackage option) \<times> DocItemLoader \<times> World" where
  "hiddenFirst = getPackage project hiddenRef freshLoader quiet"

definition localSecond :: "(error + DocPackage option) \<times> DocItemLoader \<times> World" where
  "localSecond = getPackage project localRef (fst (snd hiddenFirst)) (snd (snd hiddenFirst))"

section \<open>Properties\<close>

lemmas example_defs =
  project_def freshLoader_def fooLoader_def bareLoader_def plainLoader_def plainPackage_def
  quiet_def fooPackage_def widget_def corePackage_def hiddenPackage_def

lemmas path_defs = path_join_args_def path_join_def normalize_def isAbsolute_def basename_def

lemmas effect_defs = fs_access_def reportError_def console_log_def existsSync_def loadJsonFile_def

subsection \<open>Paths: normalizing twice changes nothing\<close>

lemma split_on_nonempty: "split_on c xs \<noteq> []"
  by (induction xs) (auto split: list.splits)

lemma split_on_no_sep: "p \<in> set (split_on c xs) \<Longrightarrow> c \<notin> set p"
  by (induction xs arbitrary: p) (auto split: list.splits if_splits)

lemma split_on_append_no_sep:
  "c \<notin> set p \<Longrightarrow> split_on c (p @ c # rest) = p # split_on c rest"
  by (induction p) (auto split: list.splits)

lemma split_on_no_sep_single: "c \<notin> set p \<Longrightarrow> split_on c p = [p]"
  by (induction p) (auto split: list.splits)

lemma split_on_join_slash:
  "segs \<noteq> [] \<Longrightarrow> list_all (\<lambda>p. CHR ''/'' \<notin> set p) segs \<Longrightarrow>
   split_on CHR ''/'' (join_slash segs) = segs"
proof (induction segs rule: join_slash.induct)
  case 1 then show ?case by simp
next
  case (2 p) then show ?case by (simp add: split_on_no_sep_single)
next
  case (3 p q ps)
  from 3 have "split_on CHR ''/'' (join_slash (q # ps)) = q # ps" by simp
  moreover from 3 have "CHR ''/'' \<notin> set p" by simp
  ultimately show ?case
    using split_on_append_no_sep [of "CHR ''/''" p "join_slash (q # ps)"] by simp
qed

lemma clean_append [simp]: "clean (xs @ ys) = (clean xs \<and> clean ys)"
  by (simp add: clean_def)

lemma clean_butlast: "clean xs \<Longrightarrow> clean (butlast xs)"
  unfolding clean_def by (induction xs) auto

lemma normalizeArray_clean: "clean ys \<Longrightarrow> normalizeArray ys a res = res @ ys"
  unfolding clean_def by (induction ys arbitrary: res) auto

lemma normal_push:
  "normal a res \<Longrightarrow> p \<noteq> [] \<Longrightarrow> p \<noteq> ''.'' \<Longrightarrow> p \<noteq> ''..'' \<Longrightarrow> normal a (res @ [p])"
  unfolding normal_def clean_def by (cases a) (simp_all add: dropWhile_append)

lemma dropWhile_butlast:
  "xs \<noteq> [] \<Longrightarrow> \<not> P (last xs) \<Longrightarrow> dropWhile P (butlast xs) = butlast (dropWhile P xs)"
  by (induction xs) auto

lemma normal_pop:
  "normal a res \<Longrightarrow> res \<noteq> [] \<Longrightarrow> last res \<noteq> ''..'' \<Longrightarrow> normal a (butlast res)"
  unfolding normal_def by (cases a) (simp_all add: dropWhile_butlast clean_butlast)

lemma dropWhile_all: "list_all P xs \<Longrightarrow> dropWhile P xs = []"
  by (induction xs) auto

lemma clean_last_dotdot:
  "clean (dropWhile (\<lambda>p. p = ''..'') res) \<Longrightarrow> res \<noteq> [] \<Longrightarrow> last res = ''..'' \<Longrightarrow>
   list_all (\<lambda>p. p = ''..'') res"
proof (induction res)
  case Nil then show ?case by simp
next
  case (Cons x xs)
  show ?case
  proof (cases "x = ''..''")
    case True
    with Cons show ?thesis by (cases "xs = []") simp_all
  next
    case False
    with Cons.prems have "clean (x # xs)" by simp
    then have "last (x # xs) \<noteq> ''..''"
      unfolding clean_def list_all_iff using last_in_set [of "x # xs"] by blast
    with Cons.prems show ?thesis by simp
  qed
qed

lemma normal_push_dotdot:
  assumes "normal True res" and "res = [] \<or> last res = ''..''"
  shows "normal True (res @ [''..''])"
proof -
  have "list_all (\<lambda>p. p = ''..'') res"
    using assms clean_last_dotdot [of res] by (cases "res = []") (simp_all add: normal_def)
  then have "list_all (\<lambda>p. p = ''..'') (res @ [''..''])" by simp
  then have "dropWhile (\<lambda>p. p = ''..'') (res @ [''..'']) = []"
    by (rule dropWhile_all)
  then show ?thesis by (simp add: normal_def clean_def)
qed

lemma normalizeArray_normal:
  "normal a res \<Longrightarrow> normal a (normalizeArray ps a res)"
proof (induction ps arbitrary: res)
  case Nil then show ?case by simp
next
  case (Cons p ps)
  show ?case
  proof (cases "p = [] \<or> p = ''.''")
    case True
    with Cons show ?thesis by simp
  next
    case skip: False
    show ?thesis
    proof (cases "p = ''..''")
      case False
      with skip Cons.prems have "normal a (res @ [p])" by (simp add: normal_push)
      then have "normal a (normalizeArray ps a (res @ [p]))" by (rule Cons.IH)
      with False skip show ?thesis by simp
    next
      case dd: True
      show ?thesis
      proof (cases "res \<noteq> [] \<and> last res \<noteq> ''..''")
        case True
        with Cons.prems have "normal a (butlast res)" by (simp add: normal_pop)
        then have "normal a (normalizeArray ps a (butlast res))" by (rule Cons.IH)
        with dd True show ?thesis by simp
      next
        case nopop: False
        show ?thesis
        proof (cases a)
          case True
          from nopop have "res = [] \<or> last res = ''..''" by blast
          with True Cons.prems have "normal True (res @ [''..''])"
            by (simp add: normal_push_dotdot)
          with True have "normal a (res @ [''..''])" by simp
          then have "normal a (normalizeArray ps a (res @ [''..'']))" by (rule Cons.IH)
          with True dd nopop show ?thesis by auto
        next
          case False
          from Cons.prems have "normal a (normalizeArray ps a res)" by (rule Cons.IH)
          with False dd nopop show ?thesis by auto
        qed
      qed
    qed
  qed
qed

lemma normalizeArray_append:
  "normalizeArray (ps @ qs) a res = normalizeArray qs a (normalizeArray ps a res)"
proof (induction ps arbitrary: res)
  case Nil then show ?case by simp
next
  case (Cons p ps)
  show ?case
    unfolding append_Cons normalizeArray.simps Cons.IH
    by (simp only: if_distrib [where f = "normalizeArray qs a"])
qed

lemma normalizeArray_dotdots:
  "list_all (\<lambda>p. p = ''..'') dd \<Longrightarrow> list_all (\<lambda>p. p = ''..'') res \<Longrightarrow>
   normalizeArray dd True res = res @ dd"
proof (induction dd arbitrary: res)
  case Nil then show ?case by simp
next
  case (Cons d dd)
  from Cons.prems have d: "d = ''..''" by simp
  from Cons.prems have "res = [] \<or> last res = ''..''"
    by (cases "res = []") (auto simp: list_all_iff)
  moreover from Cons.prems d have "list_all (\<lambda>p. p = ''..'') (res @ [''..''])" by simp
  then have "normalizeArray dd True (res @ [''..'']) = (res @ [''..'']) @ dd"
    using Cons.prems by (intro Cons.IH) simp_all
  ultimately show ?case using d by (simp only: normalizeArray.simps) auto
qed

lemma takeWhile_all: "list_all P (takeWhile P xs)"
  by (induction xs) auto

lemma normalizeArray_fixed:
  assumes "normal a segs"
  shows "normalizeArray segs a [] = segs"
proof (cases a)
  case False
  with assms show ?thesis by (simp add: normal_def normalizeArray_clean)
next
  case True
  let ?dd = "takeWhile (\<lambda>p. p = ''..'') segs" and ?ys = "dropWhile (\<lambda>p. p = ''..'') segs"
  have "normalizeArray (?dd @ ?ys) True [] = normalizeArray ?ys True (normalizeArray ?dd True [])"
    by (rule normalizeArray_append)
  also have "normalizeArray ?dd True [] = ?dd"
    using normalizeArray_dotdots [of ?dd "[]"] by (simp add: takeWhile_all)
  also have "normalizeArray ?ys True ?dd = ?dd @ ?ys"
    using assms True by (simp add: normal_def normalizeArray_clean)
  finally show ?thesis using True by simp
qed

lemma normalizeArray_parts:
  "list_all Q res \<Longrightarrow> list_all Q ps \<Longrightarrow> Q ''..'' \<Longrightarrow> list_all Q (normalizeArray ps a res)"
proof (induction ps arbitrary: res)
  case Nil then show ?case by simp
next
  case (Cons p ps)
  from Cons.prems have tl: "list_all Q ps" and p: "Q p" by simp_all
  have pop: "list_all Q (butlast res)"
    using Cons.prems(1) by (auto simp: list_all_iff dest: in_set_butlastD)
  have push: "list_all Q (res @ [p])" and pushdd: "list_all Q (res @ [''..''])"
    using Cons.prems p by simp_all
  note ih = Cons.IH [OF _ tl Cons.prems(3)]
  have "list_all Q (normalizeArray ps a res)" "list_all Q (normalizeArray ps a (butlast res))"
    "list_all Q (normalizeArray ps a (res @ [p]))" "list_all Q (normalizeArray ps a (res @ [''..'']))"
    using ih [OF Cons.prems(1)] ih [OF pop] ih [OF push] ih [OF pushdd] by blast+
  then show ?case by (simp only: normalizeArray.simps if_split) blast
qed

lemma takeWhile_dotdot_nonempty:
  "list_all (\<lambda>p. p \<noteq> []) (takeWhile (\<lambda>p. p = ''..'') segs)"
  by (induction segs) simp_all

lemma clean_nonempty: "clean segs \<Longrightarrow> list_all (\<lambda>p. p \<noteq> []) segs"
  unfolding clean_def by (induction segs) simp_all

lemma nonempty_parts:
  assumes "normal a segs"
  shows "list_all (\<lambda>p. p \<noteq> []) segs"
proof (cases a)
  case False
  with assms show ?thesis by (simp add: normal_def clean_nonempty)
next
  case True
  with assms have "clean (dropWhile (\<lambda>p. p = ''..'') segs)"
    by (simp add: normal_def)
  then have "list_all (\<lambda>p. p \<noteq> []) (dropWhile (\<lambda>p. p = ''..'') segs)"
    by (rule clean_nonempty)
  with takeWhile_dotdot_nonempty [of segs]
  have "list_all (\<lambda>p. p \<noteq> [])
      (takeWhile (\<lambda>p. p = ''..'') segs @ dropWhile (\<lambda>p. p = ''..'') segs)"
    unfolding list_all_append by (rule conjI)
  then show ?thesis
    unfolding takeWhile_dropWhile_id .
qed

lemma split_on_snoc: "split_on c (xs @ [c]) = split_on c xs @ [[]]"
  by (induction xs) (auto split: list.splits simp: split_on_nonempty)

lemma join_slash_nonempty: "segs \<noteq> [] \<Longrightarrow> hd segs \<noteq> [] \<Longrightarrow> join_slash segs \<noteq> []"
  by (induction segs rule: join_slash.induct) auto

lemma hd_join_slash: "segs \<noteq> [] \<Longrightarrow> hd segs \<noteq> [] \<Longrightarrow> hd (join_slash segs) = hd (hd segs)"
  by (induction segs rule: join_slash.induct) auto

lemma join_slash_empty: "join_slash segs = [] \<Longrightarrow> segs = [] \<or> segs = [[]]"
  by (induction segs rule: join_slash.induct) auto

lemma last_join_slash:
  "segs \<noteq> [] \<Longrightarrow> last segs \<noteq> [] \<Longrightarrow> last (join_slash segs) = last (last segs)"
proof (induction segs rule: join_slash.induct)
  case 1 then show ?case by simp
next
  case (2 p) then show ?case by simp
next
  case (3 p q ps)
  have "join_slash (q # ps) \<noteq> []"
    using join_slash_empty [of "q # ps"] "3.prems" by auto
  with 3 show ?case by simp
qed

lemma normalize_shape:
  assumes segs_def: "segs = normalizeArray (split_on CHR ''/'' path) (\<not> isAbsolute path) []"
  shows "normalize path =
     (if segs = [] then (if isAbsolute path then ''/''
                          else if path \<noteq> [] \<and> last path = CHR ''/'' then ''./'' else ''.'')
      else (if isAbsolute path then ''/'' else []) @ join_slash segs
             @ (if path \<noteq> [] \<and> last path = CHR ''/'' then ''/'' else []))"
proof -
  have ne: "segs \<noteq> [] \<Longrightarrow> join_slash segs \<noteq> []"
  proof -
    assume s: "segs \<noteq> []"
    have "normal (\<not> isAbsolute path) segs"
      unfolding segs_def by (rule normalizeArray_normal) (simp add: normal_def clean_def)
    then have "list_all (\<lambda>p. p \<noteq> []) segs" by (rule nonempty_parts)
    with s have "hd segs \<noteq> []" by (cases segs) simp_all
    with s show ?thesis by (rule join_slash_nonempty)
  qed
  show ?thesis
  proof (cases "segs = []")
    case True
    then show ?thesis
      unfolding normalize_def Let_def segs_def [symmetric] by simp
  next
    case False
    with ne have "join_slash segs \<noteq> []" by simp
    with False show ?thesis
      unfolding normalize_def Let_def segs_def [symmetric] by simp
  qed
qed


lemma normalize_small:
  "normalize ''/'' = ''/''" "normalize ''.'' = ''.''" "normalize ''./'' = ''./''"
  by (simp_all add: normalize_def isAbsolute_def)

lemma normalize_rebuild:
  assumes segs: "segs \<noteq> []" and fixed: "normalizeArray segs (\<not> up) [] = segs"
    and noslash: "list_all (\<lambda>p. CHR ''/'' \<notin> set p) segs"
    and nonempty: "list_all (\<lambda>p. p \<noteq> []) segs"
  shows "normalize ((if up then ''/'' else []) @ join_slash segs @ (if ts then ''/'' else []))
       = (if up then ''/'' else []) @ join_slash segs @ (if ts then ''/'' else [])"
proof -
  let ?J = "join_slash segs"
  from segs nonempty have hdne: "hd segs \<noteq> []" and lastne: "last segs \<noteq> []"
    by (cases segs, simp_all add: list_all_iff)+
  from segs hdne have J: "?J \<noteq> []" by (rule join_slash_nonempty)
  have "hd segs \<in> set segs" "last segs \<in> set segs" using segs by simp_all
  with noslash have "CHR ''/'' \<notin> set (hd segs)" "CHR ''/'' \<notin> set (last segs)"
    by (simp_all add: list_all_iff)
  with hdne lastne have "hd (hd segs) \<noteq> CHR ''/''" "last (last segs) \<noteq> CHR ''/''"
    by (metis hd_in_set, metis last_in_set)
  with segs hdne lastne have hdJ: "hd ?J \<noteq> CHR ''/''" and lastJ: "last ?J \<noteq> CHR ''/''"
    by (simp_all add: hd_join_slash last_join_slash)
  have split: "split_on CHR ''/'' ?J = segs"
    using segs noslash by (rule split_on_join_slash)
  have split_ts: "split_on CHR ''/'' (?J @ ''/'') = segs @ [[]]"
    using split_on_snoc [of "CHR ''/''" ?J] split by simp
  have fixed_ts: "normalizeArray (segs @ [[]]) (\<not> up) [] = segs"
    by (simp add: normalizeArray_append fixed)
  have abs_J: "\<not> isAbsolute ?J" "\<not> isAbsolute (?J @ ''/'')"
    using J hdJ by (cases ?J, simp_all add: isAbsolute_def)+
  show ?thesis
  proof (cases up; cases ts)
    assume "up" "ts"
    then show ?thesis
      using J split_ts fixed_ts by (simp add: normalize_def isAbsolute_def)
  next
    assume "up" "\<not> ts"
    then show ?thesis
      using J lastJ split fixed by (simp add: normalize_def isAbsolute_def)
  next
    assume "\<not> up" "ts"
    then show ?thesis
      using J split_ts fixed_ts abs_J by (simp add: normalize_def)
  next
    assume "\<not> up" "\<not> ts"
    then show ?thesis
      using J lastJ split fixed abs_J by (simp add: normalize_def)
  qed
qed

lemma normalize_idem: "normalize (normalize path) = normalize path"
proof -
  define segs where "segs = normalizeArray (split_on CHR ''/'' path) (\<not> isAbsolute path) []"
  note shape = normalize_shape [OF segs_def]
  show ?thesis
  proof (cases "segs = []")
    case True
    with shape show ?thesis by (simp add: normalize_small)
  next
    case False
    have n: "normal (\<not> isAbsolute path) segs"
      unfolding segs_def by (rule normalizeArray_normal) (simp add: normal_def clean_def)
    then have fixed: "normalizeArray segs (\<not> isAbsolute path) [] = segs"
      by (rule normalizeArray_fixed)
    have "list_all (\<lambda>p. CHR ''/'' \<notin> set p) (split_on CHR ''/'' path)"
      by (simp add: list_all_iff split_on_no_sep)
    then have noslash: "list_all (\<lambda>p. CHR ''/'' \<notin> set p) segs"
      unfolding segs_def by (intro normalizeArray_parts) simp_all
    from n have nonempty: "list_all (\<lambda>p. p \<noteq> []) segs" by (rule nonempty_parts)
    from False shape have "normalize path =
        (if isAbsolute path then ''/'' else []) @ join_slash segs
          @ (if path \<noteq> [] \<and> last path = CHR ''/'' then ''/'' else [])"
      by simp
    with normalize_rebuild [OF False fixed noslash nonempty, of "path \<noteq> [] \<and> last path = CHR ''/''"]
    show ?thesis by simp
  qed
qed

lemma normalize_nonempty: "normalize path \<noteq> []"
proof (cases "isAbsolute path")
  case True
  then show ?thesis by (simp add: normalize_def Let_def)
next
  case False
  then show ?thesis
    by (cases "join_slash (normalizeArray (split_on CHR ''/'' path) True []) = []")
      (simp_all add: normalize_def Let_def)
qed

lemma path_join_single: "path_join [path_join segments] = path_join segments"
  by (simp add: path_join_def normalize_idem normalize_nonempty)

text \<open>The base name of a manifest path, and the cache key derived from it.\<close>

lemma takeWhile_stop: "list_all P xs \<Longrightarrow> \<not> P y \<Longrightarrow> takeWhile P (xs @ y # ys) = xs"
  by (induction xs) simp_all

lemma takeWhile_whole: "list_all P xs \<Longrightarrow> takeWhile P xs = xs"
  by (induction xs) simp_all

lemma basename_last_part:
  assumes "f \<noteq> []" and "CHR ''/'' \<notin> set f"
  shows "basename (x @ ''/'' @ f) = f" and "basename f = f"
proof -
  have all: "list_all (\<lambda>c. c \<noteq> CHR ''/'') (rev f)"
    using assms(2) by (auto simp: list_all_iff)
  have dw: "dropWhile (\<lambda>c. c = CHR ''/'') (rev f @ ys) = rev f @ ys" for ys
    using assms by (cases "rev f") auto
  have "basename (x @ ''/'' @ f) =
          rev (takeWhile (\<lambda>c. c \<noteq> CHR ''/'') (rev f @ CHR ''/'' # rev x))"
    using dw [of "CHR ''/'' # rev x"] by (simp add: basename_def)
  also have "takeWhile (\<lambda>c. c \<noteq> CHR ''/'') (rev f @ CHR ''/'' # rev x) = rev f"
    using all by (rule takeWhile_stop) simp
  finally show "basename (x @ ''/'' @ f) = f" by simp
  have "basename f = rev (takeWhile (\<lambda>c. c \<noteq> CHR ''/'') (rev f))"
    using dw [of "[]"] by (simp add: basename_def)
  also have "takeWhile (\<lambda>c. c \<noteq> CHR ''/'') (rev f) = rev f"
    using all by (rule takeWhile_whole)
  finally show "basename f = f" by simp
qed

lemma hd_split_on_prefix:
  "c \<notin> set p \<Longrightarrow> hd (split_on c (p @ c # rest)) = p"
  by (simp add: split_on_append_no_sep)

lemma join_slash_snoc:
  "segs \<noteq> [] \<Longrightarrow> join_slash (segs @ [f]) = join_slash segs @ ''/'' @ f"
  by (induction segs rule: join_slash.induct) auto


lemma split_on_append:
  "split_on c (xs @ c # ys) = split_on c xs @ split_on c ys"
proof (induction xs)
  case Nil then show ?case by simp
next
  case (Cons x xs)
  then show ?case
    using split_on_nonempty [of c xs] by (cases "split_on c xs") auto
qed

lemma normalize_keeps_last_part:
  assumes f: "f \<noteq> []" "f \<noteq> ''.''" "f \<noteq> ''..''" "CHR ''/'' \<notin> set f"
  shows "basename (normalize (x @ CHR ''/'' # f)) = f"
proof -
  let ?path = "x @ CHR ''/'' # f"
  define rest where "rest = normalizeArray (split_on CHR ''/'' x) (\<not> isAbsolute ?path) []"
  define segs where "segs = normalizeArray (split_on CHR ''/'' ?path) (\<not> isAbsolute ?path) []"
  have "split_on CHR ''/'' ?path = split_on CHR ''/'' x @ [f]"
    using f(4) by (simp add: split_on_append split_on_no_sep_single)
  then have segs: "segs = rest @ [f]"
    using f by (simp add: segs_def rest_def normalizeArray_append)
  have "last ?path = last f" and "last f \<in> set f"
    using f(1) by simp_all
  with f(4) have last: "last ?path \<noteq> CHR ''/''"
    by metis
  have shape: "normalize ?path = (if isAbsolute ?path then ''/'' else []) @ join_slash segs"
    using normalize_shape [OF segs_def] segs last by simp
  show ?thesis
  proof (cases "rest = []")
    case True
    with segs shape have "normalize ?path = (if isAbsolute ?path then [] @ ''/'' @ f else f)"
      by simp
    then show ?thesis
      using basename_last_part(1) [OF f(1,4), of "[]"] basename_last_part(2) [OF f(1,4)]
      by (simp split: if_splits)
  next
    case False
    with segs have "join_slash segs = join_slash rest @ ''/'' @ f"
      by (simp add: join_slash_snoc)
    with shape have "normalize ?path =
        ((if isAbsolute ?path then ''/'' else []) @ join_slash rest) @ ''/'' @ f"
      by simp
    then show ?thesis
      using basename_last_part(1) [OF f(1,4)] by (simp only:)
  qed
qed

lemma manifest_basename:
  assumes "name \<noteq> []" and "CHR ''/'' \<notin> set name"
  shows "basename (path_join [folder, ''node_modules'', s, name, ''dist/'' @ name @ ''.api.json''])
           = name @ ''.api.json''"
proof -
  let ?f = "name @ ''.api.json''"
  let ?front = "filter (\<lambda>s. s \<noteq> []) [folder, ''node_modules'', s, name]"
  have front: "?front \<noteq> []" by simp
  have "filter (\<lambda>s. s \<noteq> []) [folder, ''node_modules'', s, name, ''dist/'' @ ?f]
          = ?front @ [''dist/'' @ ?f]"
    by simp
  then have J: "join_slash (filter (\<lambda>s. s \<noteq> []) [folder, ''node_modules'', s, name, ''dist/'' @ ?f])
          = (join_slash ?front @ ''/dist'') @ CHR ''/'' # ?f"
    using join_slash_snoc [OF front, of "''dist/'' @ ?f"] by (simp only: append_assoc) simp
  have "?f \<noteq> []" "?f \<noteq> ''.''" "?f \<noteq> ''..''" "CHR ''/'' \<notin> set ?f"
    using assms by (auto simp: append_eq_Cons_conv)
  then have "basename (normalize ((join_slash ?front @ ''/dist'') @ CHR ''/'' # ?f)) = ?f"
    by (rule normalize_keeps_last_part)
  then show ?thesis
    unfolding path_join_def J .
qed

lemma manifest_cache_key:
  assumes "name \<noteq> []" and "CHR ''/'' \<notin> set name" and "CHR ''.'' \<notin> set name"
  shows "hd (split_on CHR ''.''
            (basename (path_join [folder, ''node_modules'', s, name,
               ''dist/'' @ name @ ''.api.json'']))) = name"
proof -
  have "hd (split_on CHR ''.'' (name @ ''.api.json'')) = name"
    using assms(3) hd_split_on_prefix [of "CHR ''.''" name "''api.json''"] by simp
  then show ?thesis
    unfolding manifest_basename [OF assms(1,2)] .
qed

subsection \<open>What a call of \<^verbatim>\<open>getPackage\<close> does, case by case\<close>

lemma getPackage_cached:
  assumes "cache this (cachePackageName r) = Some docPackage"
  shows "getPackage env r this w = (Inr (Some docPackage), this, w)"
  using assms by (simp add: getPackage_def)

lemma getPackage_found_keeps_reports:
  assumes "getPackage env r this w = (Inr (Some p), this', w')"
  shows "reported w' = reported w"
  using assms unfolding getPackage_def Let_def loadPackageIntoCache_def
  by (auto simp: effect_defs
      split: option.splits if_splits sum.splits document.splits prod.splits)

lemma getPackage_scope_undefined_throws:
  assumes "cache this (cachePackageName r) = None" and "packageName r \<noteq> []"
    and "scopeName r = None"
  shows "getPackage env r this w = (Inl TypeError, this, w)"
  using assms by (simp add: getPackage_def path_join_args_def)

lemma getPackage_first_access:
  assumes "cache this (cachePackageName r) = None" and "packageName r \<noteq> []"
    and "scopeName r = Some s"
  shows "\<exists>rest. accessed (snd (snd (getPackage env r this w))) =
           accessed w @ ExistsSync (path_join [projectFolder this, ''node_modules'', s,
              packageName r, ''dist/'' @ packageName r @ ''.api.json'']) # rest"
  using assms unfolding getPackage_def Let_def loadPackageIntoCache_def path_join_args_def
  by (auto simp: effect_defs path_join_single
      split: option.splits if_splits sum.splits document.splits prod.splits fs_file.splits)

lemma getPackage_rethrows:
  assumes "cache this (cachePackageName r) = None" and "packageName r \<noteq> []"
    and "scopeName r = Some s"
    and "path_join [projectFolder this, ''node_modules'', s, packageName r,
            ''dist/'' @ packageName r @ ''.api.json''] = manifest"
    and "existsSync env manifest"
    and "fst (loadPackageIntoCache env manifest this (fs_access (ExistsSync manifest) w)) = Inl e"
  shows "fst (getPackage env r this w) = Inl e"
proof -
  have "path_join [manifest] = manifest"
    using assms(4) path_join_single by blast
  with assms show ?thesis
    unfolding getPackage_def Let_def path_join_args_def
    by (auto split: prod.splits sum.splits)
qed

text \<open>
  The cache does its work for a package without scope whose name has no dot: the first
  call loads the manifest and stores it under the package name, and the second call with
  the same reference returns the stored package and touches nothing.
\<close>

lemma cachePackageName_unscoped:
  "\<not> truthy (scopeName r) \<Longrightarrow> cachePackageName r = packageName r"
  by (simp add: cachePackageName_def)

lemma getPackage_unscoped_loads:
  assumes scope: "scopeName r = Some []"
    and name: "packageName r \<noteq> []" "CHR ''/'' \<notin> set (packageName r)"
      "CHR ''.'' \<notin> set (packageName r)"
    and fresh: "cache this (packageName r) = None"
    and manifest: "manifest = path_join [projectFolder this, ''node_modules'', [], packageName r,
        ''dist/'' @ packageName r @ ''.api.json'']"
    and conforming: "files env manifest = Some (Parsed (Conforming apiPackage))"
  shows "getPackage env r this w =
     (Inr (Some apiPackage), this\<lparr>cache := (cache this)(packageName r \<mapsto> apiPackage)\<rparr>,
      fs_access (LoadJsonFile (path_join [dirname env, ''./schemas/api-json-schema.json'']))
        (fs_access (LoadJsonFile manifest) (fs_access (ExistsSync manifest) w)))"
proof -
  have key: "cachePackageName r = packageName r"
    using scope by (simp add: cachePackageName_def truthy_def)
  have stored: "hd (split_on CHR ''.'' (basename manifest)) = packageName r"
    unfolding manifest using name by (rule manifest_cache_key)
  have single: "path_join [manifest] = manifest"
    unfolding manifest by (rule path_join_single)
  have load: "loadPackageIntoCache env manifest this (fs_access (ExistsSync manifest) w) =
     (Inr apiPackage, this\<lparr>cache := (cache this)(packageName r \<mapsto> apiPackage)\<rparr>,
      fs_access (LoadJsonFile (path_join [dirname env, ''./schemas/api-json-schema.json'']))
        (fs_access (LoadJsonFile manifest) (fs_access (ExistsSync manifest) w)))"
    using conforming stored by (simp add: loadPackageIntoCache_def loadJsonFile_def Let_def)
  have args: "path_join_args [Some (projectFolder this), Some ''node_modules'', scopeName r,
        Some (packageName r), Some (''dist/'' @ packageName r @ ''.api.json'')] = Inr manifest"
    using scope by (simp add: path_join_args_def manifest)
  show ?thesis
    unfolding getPackage_def key args
    using fresh name(1) conforming single load by (simp add: existsSync_def Let_def)
qed

lemma getPackage_unscoped_again:
  assumes "scopeName r = Some []"
    and "packageName r \<noteq> []" "CHR ''/'' \<notin> set (packageName r)"
      "CHR ''.'' \<notin> set (packageName r)"
    and "cache this (packageName r) = None"
    and "files env (path_join [projectFolder this, ''node_modules'', [], packageName r,
        ''dist/'' @ packageName r @ ''.api.json'']) = Some (Parsed (Conforming apiPackage))"
    and "getPackage env r this w = (first, this', w')"
  shows "getPackage env r this' w' = (first, this', w')"
proof -
  from getPackage_unscoped_loads [OF assms(1-5) refl assms(6), of w] assms(7)
  have first: "first = Inr (Some apiPackage)"
    and this': "this' = this\<lparr>cache := (cache this)(packageName r \<mapsto> apiPackage)\<rparr>"
    by simp_all
  have "cachePackageName r = packageName r"
    using assms(1) by (simp add: cachePackageName_def truthy_def)
  then have "cache this' (cachePackageName r) = Some apiPackage"
    using this' by simp
  then show ?thesis
    unfolding first by (rule getPackage_cached)
qed

text \<open>
  The loader of the example project, as the constructor makes it, and the first calls of
  the two runs that are looked at below.
\<close>

lemma new_DocItemLoader_project:
  "new_DocItemLoader project ''/proj'' quiet =
     (Inr freshLoader, \<lparr>reported = [], accessed = [ExistsSync ''/proj/package.json''], console = []\<rparr>)"
  by (simp add: new_DocItemLoader_def Let_def path_join_def normalize_def isAbsolute_def
      effect_defs example_defs)

lemma hiddenFirst_result:
  "hiddenFirst =
     (Inr (Some hiddenPackage), \<lparr>cache = [[] \<mapsto> hiddenPackage], projectFolder = ''/proj''\<rparr>,
      \<lparr>reported = [],
       accessed = [ExistsSync ''/proj/node_modules/.hidden/dist/.hidden.api.json'',
                   LoadJsonFile ''/proj/node_modules/.hidden/dist/.hidden.api.json'',
                   LoadJsonFile ''/lib/schemas/api-json-schema.json''],
       console = []\<rparr>)"
  unfolding hiddenFirst_def hiddenRef_def
  by (simp add: getPackage_def loadPackageIntoCache_def cachePackageName_def truthy_def Let_def
      path_defs effect_defs example_defs)

lemma scopedFirst_result:
  "scopedFirst =
     (Inr (Some corePackage), \<lparr>cache = [''core'' \<mapsto> corePackage], projectFolder = ''/proj''\<rparr>,
      \<lparr>reported = [],
       accessed = [ExistsSync ''/proj/node_modules/@ms/core/dist/core.api.json'',
                   LoadJsonFile ''/proj/node_modules/@ms/core/dist/core.api.json'',
                   LoadJsonFile ''/lib/schemas/api-json-schema.json''],
       console = []\<rparr>)"
  unfolding scopedFirst_def scopedRef_def
  by (simp add: getPackage_def loadPackageIntoCache_def cachePackageName_def truthy_def Let_def
      path_defs effect_defs example_defs)

subsection \<open>The reference resolver\<close>

lemma getItem_member_of_plain_export_throws:
  assumes "getPackage env r this w = (Inr (Some docPackage), this', w')"
    and "exports docPackage (exportName r) = Some docItem"
    and "members docItem = None"
    and "truthy (memberName r)"
  shows "getItem env (Some r) this w = (Inl TypeError, this', w')"
  using assms by (simp add: getItem_def)

text \<open>
  Claim C9. Called with an absent reference, \<^verbatim>\<open>getItem\<close> invokes the error callback
  once, with exactly the message \<^verbatim>\<open>Expected reference within {@inheritdoc} tag\<close>, and
  returns \<^verbatim>\<open>undefined\<close>; it raises nothing, and neither the loader nor the file system
  log changes.
\<close>

theorem getItem_absent_reference:
  "getItem env None this w =
     (Inr None, this,
      w\<lparr>reported := reported w @ [''Expected reference within {@inheritdoc} tag'']\<rparr>)"
  by (simp add: getItem_def reportError_def)

text \<open>
  The reference to \<^verbatim>\<open>Widget.render\<close> in \<^verbatim>\<open>foo\<close>, where the cache holds a package
  under \<^verbatim>\<open>foo\<close> whose export \<^verbatim>\<open>Widget\<close> carries a member mapping: when the mapping
  has \<^verbatim>\<open>render\<close>, \<^verbatim>\<open>getItem\<close> returns that member item, not the export item; when
  it has not, the result is \<^verbatim>\<open>undefined\<close>. Nothing is reported and no file is touched.
\<close>

lemma getItem_Widget_with_members:
  assumes "cache this ''foo'' = Some docPackage"
    and "exports docPackage ''Widget'' = Some docItem"
    and "members docItem = Some ms"
  shows "getItem env (Some widgetRenderRef) this w = (Inr (ms ''render''), this, w)"
  using assms
  by (simp add: getItem_def getPackage_def cachePackageName_def truthy_def widgetRenderRef_def
      split: option.splits)

lemma getItem_Widget_with_members_examples:
  "getItem project (Some widgetRenderRef) fooLoader quiet =
     (Inr (Some (DocItem ''method'' None)), fooLoader, quiet)"
  "getItem project (Some widgetRenderRef) bareLoader quiet = (Inr None, bareLoader, quiet)"
  by (simp_all add: getItem_def getPackage_def cachePackageName_def truthy_def
      widgetRenderRef_def example_defs)

text \<open>
  Claim C4, evaluated where the code departs from it. The loaded package \<^verbatim>\<open>foo\<close> has
  the export \<^verbatim>\<open>Widget\<close>, a class without a \<^verbatim>\<open>members\<close> property, so that
  \<^verbatim>\<open>members.render\<close> is absent. For the reference
  \<^verbatim>\<open>{ packageName: "foo", exportName: "Widget", memberName: "render" }\<close> the code
  applies the \<^verbatim>\<open>in\<close> operator to the missing mapping, and \<^verbatim>\<open>getItem\<close> ends in a
  \<^verbatim>\<open>TypeError\<close> instead of returning \<^verbatim>\<open>undefined\<close>.
\<close>

theorem getItem_Widget_without_members_throws:
  "cache plainLoader ''foo'' = Some plainPackage
   \<and> exports plainPackage ''Widget'' = Some (DocItem ''class'' None)
   \<and> getItem project (Some widgetRenderRef) plainLoader quiet =
       (Inl TypeError, plainLoader, quiet)"
  by (simp add: getItem_def getPackage_def cachePackageName_def truthy_def widgetRenderRef_def
      example_defs)

text \<open>
  Claim C2, evaluated where the code departs from it. The cached package \<^verbatim>\<open>foo\<close>
  exports the function \<^verbatim>\<open>helper\<close>, which carries no member mapping. For a reference to
  \<^verbatim>\<open>helper\<close> with the member name \<^verbatim>\<open>call\<close> the code applies the \<^verbatim>\<open>in\<close> operator
  to the missing mapping, and \<^verbatim>\<open>getItem\<close> ends in a \<^verbatim>\<open>TypeError\<close> instead of
  returning \<^verbatim>\<open>undefined\<close>.
\<close>

theorem getItem_member_of_function_throws:
  "getItem project
     (Some \<lparr>scopeName = None, packageName = ''foo'', exportName = ''helper'',
            memberName = Some ''call''\<rparr>) fooLoader quiet =
   (Inl TypeError, fooLoader, quiet)"
  by (simp add: getItem_def getPackage_def cachePackageName_def truthy_def example_defs)

text \<open>
  Claim C8. When \<^verbatim>\<open>getPackage\<close> has resolved the reference to a package, from the cache
  or from a manifest it has just loaded, and the export name of the reference is absent
  from the exports mapping of that package, \<^verbatim>\<open>getItem\<close> returns \<^verbatim>\<open>undefined\<close>, and the
  error callback has not been invoked.
\<close>

theorem getItem_export_absent:
  assumes "getPackage env r this w = (Inr (Some docPackage), this', w')"
    and "exports docPackage (exportName r) = None"
  shows "getItem env (Some r) this w = (Inr None, this', w') \<and> reported w' = reported w"
  using assms getPackage_found_keeps_reports [of env r this w docPackage this' w']
  by (simp add: getItem_def)

text \<open>
  The theorem at the example project: \<^verbatim>\<open>foo\<close> is loaded from its manifest and has no
  export named \<^verbatim>\<open>toString\<close>.
\<close>

theorem getItem_export_absent_witness:
  "getPackage project toStringRef freshLoader quiet =
     (Inr (Some fooPackage), fooLoader,
      \<lparr>reported = [],
       accessed = [ExistsSync ''/proj/node_modules/foo/dist/foo.api.json'',
                   LoadJsonFile ''/proj/node_modules/foo/dist/foo.api.json'',
                   LoadJsonFile ''/lib/schemas/api-json-schema.json''],
       console = []\<rparr>)
   \<and> exports fooPackage (exportName toStringRef) = None
   \<and> getItem project (Some toStringRef) freshLoader quiet =
     (Inr None, fooLoader,
      \<lparr>reported = [],
       accessed = [ExistsSync ''/proj/node_modules/foo/dist/foo.api.json'',
                   LoadJsonFile ''/proj/node_modules/foo/dist/foo.api.json'',
                   LoadJsonFile ''/lib/schemas/api-json-schema.json''],
       console = []\<rparr>)"
proof -
  have load: "getPackage project toStringRef freshLoader quiet =
     (Inr (Some fooPackage), fooLoader,
      \<lparr>reported = [],
       accessed = [ExistsSync ''/proj/node_modules/foo/dist/foo.api.json'',
                   LoadJsonFile ''/proj/node_modules/foo/dist/foo.api.json'',
                   LoadJsonFile ''/lib/schemas/api-json-schema.json''],
       console = []\<rparr>)"
    by (simp add: toStringRef_def getPackage_def loadPackageIntoCache_def cachePackageName_def
        truthy_def Let_def path_defs effect_defs example_defs)
  have absent: "exports fooPackage (exportName toStringRef) = None"
    by (simp add: toStringRef_def fooPackage_def)
  show ?thesis
    using load absent getItem_export_absent [OF load absent] by simp
qed

subsection \<open>The package loader\<close>

text \<open>
  A reference whose package name is empty never makes \<^verbatim>\<open>getPackage\<close> invoke the error
  callback or touch the file system or the cache. The result is what the cache holds
  under the key of the reference, since the cache is asked before the package name is
  tested: \<^verbatim>\<open>undefined\<close> when nothing is stored under that key.
\<close>

lemma getPackage_empty_packageName:
  assumes "packageName r = []"
  shows "getPackage env r this w = (Inr (cache this (cachePackageName r)), this, w)"
  using assms by (simp add: getPackage_def split: option.splits)

lemma getPackage_empty_packageName_fresh:
  "getPackage project localRef freshLoader quiet = (Inr None, freshLoader, quiet)"
  using getPackage_empty_packageName [of localRef project freshLoader quiet]
  by (simp add: localRef_def freshLoader_def)

text \<open>
  Claim C7, evaluated where the code departs from it. The manifest of the package
  \<^verbatim>\<open>.hidden\<close> is stored under the first piece of \<^verbatim>\<open>.hidden.api.json\<close>, the empty
  string, and not under the key it is looked up by. The empty string is the cache key of
  a reference without scope and with an empty package name: resolved on the same loader
  after it, such a reference gets the package \<^verbatim>\<open>.hidden\<close> instead of
  \<^verbatim>\<open>undefined\<close>.
\<close>

theorem getPackage_local_reference_gets_package:
  "packageName localRef = [] \<and> fst localSecond = Inr (Some hiddenPackage)"
  unfolding localSecond_def hiddenFirst_result
  by (simp add: localRef_def getPackage_def cachePackageName_def truthy_def)

text \<open>
  A reference that is not cached, with a package name that is not empty and a scope name
  that is a string, so that a manifest path is computed: when that path does not exist,
  \<^verbatim>\<open>getPackage\<close> returns \<^verbatim>\<open>undefined\<close>, leaves the loader as it is, and invokes
  the error callback exactly once, with the message
  \<^verbatim>\<open>@inheritdoc referenced package ("<packageName>") not found in node modules.\<close>, which
  contains the package name. The one file system call is the existence check.
\<close>

lemma getPackage_manifest_missing:
  assumes "cache this (cachePackageName r) = None" and "packageName r \<noteq> []"
    and "scopeName r = Some s"
    and "\<not> existsSync env (path_join [projectFolder this, ''node_modules'', s,
            packageName r, ''dist/'' @ packageName r @ ''.api.json''])"
  shows "fst (getPackage env r this w) = Inr None
       \<and> fst (snd (getPackage env r this w)) = this
       \<and> reported (snd (snd (getPackage env r this w))) =
           reported w @ [notFoundMessage (packageName r)]
       \<and> sublist (packageName r) (notFoundMessage (packageName r))
       \<and> accessed (snd (snd (getPackage env r this w))) =
           accessed w @ [ExistsSync (path_join [projectFolder this, ''node_modules'', s,
             packageName r, ''dist/'' @ packageName r @ ''.api.json''])]"
proof -
  have "sublist (packageName r) (notFoundMessage (packageName r))"
    unfolding sublist_def notFoundMessage_def by blast
  then show ?thesis
    using assms
    by (simp add: getPackage_def path_join_args_def Let_def reportError_def fs_access_def
        path_join_single)
qed

text \<open>The lemma at a package that is not installed in the example project.\<close>

lemma getPackage_manifest_missing_example:
  \<open>getPackage project
     \<lparr>scopeName = Some [], packageName = ''ghost'', exportName = ''Spook'', memberName = None\<rparr>
     freshLoader quiet =
   (Inr None, freshLoader,
    \<lparr>reported = [''@inheritdoc referenced package ("ghost") not found in node modules.''],
     accessed = [ExistsSync ''/proj/node_modules/ghost/dist/ghost.api.json''],
     console = []\<rparr>)
   \<and> reported (snd (snd (getPackage project
        \<lparr>scopeName = Some [], packageName = ''ghost'', exportName = ''Spook'', memberName = None\<rparr>
        freshLoader quiet))) =
      reported quiet @ [''@inheritdoc referenced package ("ghost") not found in node modules.'']\<close>
proof -
  let ?r = "\<lparr>scopeName = Some [], packageName = ''ghost'', exportName = ''Spook'',
              memberName = None\<rparr>"
  have h1: "cache freshLoader (cachePackageName ?r) = None"
    by (simp add: freshLoader_def)
  have h2: "packageName ?r \<noteq> []"
    by simp
  have h3: "scopeName ?r = Some []"
    by simp
  have h4: "\<not> existsSync project (path_join [projectFolder freshLoader,
              ''node_modules'', [], packageName ?r, ''dist/'' @ packageName ?r @ ''.api.json''])"
    by (simp add: path_defs existsSync_def example_defs)
  have run: "getPackage project ?r freshLoader quiet =
      (Inr None, freshLoader,
       \<lparr>reported = [notFoundMessage ''ghost''],
        accessed = [ExistsSync ''/proj/node_modules/ghost/dist/ghost.api.json''],
        console = []\<rparr>)"
    by (simp add: getPackage_def cachePackageName_def truthy_def Let_def path_defs effect_defs
        example_defs)
  show ?thesis
    using getPackage_manifest_missing [OF h1 h2 h3 h4, of quiet] run
    by (simp add: notFoundMessage_def)
qed

text \<open>
  Claim C5, evaluated where the code departs from it. The package \<^verbatim>\<open>ghost\<close> is not
  installed, so the manifest of a reference to it does not exist on disk, and nothing is
  cached. When the scope name of the reference is absent, \<^verbatim>\<open>path.join\<close> throws before
  the existence check: \<^verbatim>\<open>getPackage\<close> ends in a \<^verbatim>\<open>TypeError\<close>, and the error
  callback is not invoked.
\<close>

theorem getPackage_manifest_missing_absent_scope_throws:
  "cache freshLoader (cachePackageName ghostRef) = None
   \<and> existsSync project ''/proj/node_modules/ghost/dist/ghost.api.json'' = False
   \<and> getPackage project ghostRef freshLoader quiet = (Inl TypeError, freshLoader, quiet)"
  by (simp add: ghostRef_def getPackage_def cachePackageName_def truthy_def path_join_args_def
      existsSync_def example_defs)

text \<open>
  Claim C3, evaluated where the code departs from it. The package \<^verbatim>\<open>foo\<close> is installed
  without a scope, at \<^verbatim>\<open>/proj/node_modules/foo/dist/foo.api.json\<close>. For a reference to it
  whose scope name is absent, \<^verbatim>\<open>path.join\<close> is handed \<^verbatim>\<open>undefined\<close> as its third
  segment and throws: no manifest path is computed and no file is looked at.
\<close>

theorem getPackage_absent_scope_throws:
  "existsSync project ''/proj/node_modules/foo/dist/foo.api.json''
   \<and> getPackage project
        \<lparr>scopeName = None, packageName = ''foo'', exportName = ''Widget'', memberName = None\<rparr>
        freshLoader quiet =
      (Inl TypeError, freshLoader, quiet)"
  by (simp add: getPackage_def cachePackageName_def truthy_def path_join_args_def existsSync_def
      example_defs)

text \<open>
  Claim C1, evaluated where the code departs from it. The scoped reference
  \<^verbatim>\<open>@ms/core\<close> is looked up under the key \<^verbatim>\<open>@ms/core\<close>, but its package is stored
  under \<^verbatim>\<open>core\<close>. The second, identical call therefore misses the cache, asks the file
  system again and loads the manifest a second time.
\<close>

theorem getPackage_scoped_reloads:
  "fst scopedSecond = Inr (Some corePackage)
   \<and> cache (fst (snd scopedSecond)) (cachePackageName scopedRef) = None
   \<and> accessed (snd (snd scopedSecond)) =
       [ExistsSync ''/proj/node_modules/@ms/core/dist/core.api.json'',
        LoadJsonFile ''/proj/node_modules/@ms/core/dist/core.api.json'',
        LoadJsonFile ''/lib/schemas/api-json-schema.json'',
        ExistsSync ''/proj/node_modules/@ms/core/dist/core.api.json'',
        LoadJsonFile ''/proj/node_modules/@ms/core/dist/core.api.json'',
        LoadJsonFile ''/lib/schemas/api-json-schema.json'']"
  unfolding scopedSecond_def scopedFirst_result
  unfolding scopedRef_def
  by (simp add: getPackage_def loadPackageIntoCache_def cachePackageName_def truthy_def Let_def
      path_defs effect_defs example_defs)

subsection \<open>The manifest validator\<close>

text \<open>
  Claim C6. When the document at the path violates the bundled schema,
  \<^verbatim>\<open>loadPackageIntoCache\<close> throws an \<^verbatim>\<open>Error\<close> whose message contains the phrase
  \<^verbatim>\<open>does not conform to api-json-schema.json\<close>; the error callback receives nothing, and
  the outcome is an exception, not a returned value.
\<close>

theorem loadPackageIntoCache_schema_violation:
  assumes "files env path = Some (Parsed (Violating errorDetail))"
  shows "fst (loadPackageIntoCache env path this w) =
           Inl (Error (validationErrorMessage errorDetail))
       \<and> sublist ''does not conform to api-json-schema.json''
           (validationErrorMessage errorDetail)
       \<and> reported (snd (snd (loadPackageIntoCache env path this w))) = reported w"
proof -
  have "validationErrorMessage errorDetail =
          ''ApiJsonGenerator validation error - output ''
            @ ''does not conform to api-json-schema.json'' @ ('':'' @ EOL @ errorDetail)"
    by (simp add: validationErrorMessage_def)
  then have "sublist ''does not conform to api-json-schema.json''
               (validationErrorMessage errorDetail)"
    unfolding sublist_def by blast
  then show ?thesis
    using assms
    by (simp add: loadPackageIntoCache_def loadJsonFile_def Let_def fs_access_def
        console_log_def)
qed

text \<open>
  The theorem at the manifest of the package \<^verbatim>\<open>bad\<close>; reached through
  \<^verbatim>\<open>getPackage\<close>, the error is still an exception and nothing is reported.
\<close>

theorem loadPackageIntoCache_schema_violation_witness:
  "files project ''/proj/node_modules/bad/dist/bad.api.json'' =
     Some (Parsed (Violating ''exports is missing''))
   \<and> fst (loadPackageIntoCache project ''/proj/node_modules/bad/dist/bad.api.json''
            freshLoader quiet) =
       Inl (Error (''ApiJsonGenerator validation error - output does not conform to api-json-schema.json:''
                     @ EOL @ ''exports is missing''))
   \<and> getPackage project
        \<lparr>scopeName = Some [], packageName = ''bad'', exportName = ''Thing'', memberName = None\<rparr>
        freshLoader quiet =
      (Inl (Error (''ApiJsonGenerator validation error - output does not conform to api-json-schema.json:''
                     @ EOL @ ''exports is missing'')),
       freshLoader,
       \<lparr>reported = [],
        accessed = [ExistsSync ''/proj/node_modules/bad/dist/bad.api.json'',
                    LoadJsonFile ''/proj/node_modules/bad/dist/bad.api.json'',
                    LoadJsonFile ''/lib/schemas/api-json-schema.json''],
        console = [EOL @ ''ERROR: ''
                     @ ''ApiJsonGenerator validation error - output does not conform to api-json-schema.json:''
                     @ EOL @ ''exports is missing'' @ EOL @ EOL]\<rparr>)"
proof -
  have h: "files project ''/proj/node_modules/bad/dist/bad.api.json'' =
             Some (Parsed (Violating ''exports is missing''))"
    by (simp add: project_def)
  have run: "getPackage project
        \<lparr>scopeName = Some [], packageName = ''bad'', exportName = ''Thing'', memberName = None\<rparr>
        freshLoader quiet =
      (Inl (Error (validationErrorMessage ''exports is missing'')), freshLoader,
       \<lparr>reported = [],
        accessed = [ExistsSync ''/proj/node_modules/bad/dist/bad.api.json'',
                    LoadJsonFile ''/proj/node_modules/bad/dist/bad.api.json'',
                    LoadJsonFile ''/lib/schemas/api-json-schema.json''],
        console = [EOL @ ''ERROR: '' @ validationErrorMessage ''exports is missing''
                     @ EOL @ EOL]\<rparr>)"
    by (simp add: getPackage_def loadPackageIntoCache_def cachePackageName_def truthy_def Let_def
        path_defs effect_defs example_defs)
  show ?thesis
    using h loadPackageIntoCache_schema_violation [OF h, of freshLoader quiet] run
    by (simp add: validationErrorMessage_def)
qed

text \<open>
  Claim C10. When \<^verbatim>\<open>loadPackageIntoCache\<close> throws, whether the file is missing, does not
  parse or violates the schema, the cache is what it was before the call: the package is
  stored only after the validation.
\<close>

theorem loadPackageIntoCache_error_keeps_cache:
  assumes "fst (loadPackageIntoCache env path this w) = Inl e"
  shows "cache (fst (snd (loadPackageIntoCache env path this w))) = cache this"
  using assms unfolding loadPackageIntoCache_def Let_def
  by (auto split: sum.splits document.splits)

text \<open>
  The theorem at a manifest that is not JSON and at one that violates the schema, on a
  loader that already caches \<^verbatim>\<open>foo\<close>.
\<close>

theorem loadPackageIntoCache_error_keeps_cache_witness:
  "fst (loadPackageIntoCache project ''/proj/node_modules/torn/dist/torn.api.json'' fooLoader quiet) =
     Inl (JsonLoadError ''/proj/node_modules/torn/dist/torn.api.json'')
   \<and> cache (fst (snd (loadPackageIntoCache project
        ''/proj/node_modules/torn/dist/torn.api.json'' fooLoader quiet))) = cache fooLoader
   \<and> fst (loadPackageIntoCache project ''/proj/node_modules/bad/dist/bad.api.json'' fooLoader quiet) =
     Inl (Error (validationErrorMessage ''exports is missing''))
   \<and> cache (fst (snd (loadPackageIntoCache project
        ''/proj/node_modules/bad/dist/bad.api.json'' fooLoader quiet))) = cache fooLoader"
proof -
  have torn: "fst (loadPackageIntoCache project ''/proj/node_modules/torn/dist/torn.api.json''
                fooLoader quiet) = Inl (JsonLoadError ''/proj/node_modules/torn/dist/torn.api.json'')"
    by (simp add: loadPackageIntoCache_def loadJsonFile_def Let_def project_def)
  have bad: "fst (loadPackageIntoCache project ''/proj/node_modules/bad/dist/bad.api.json''
                fooLoader quiet) = Inl (Error (validationErrorMessage ''exports is missing''))"
    by (simp add: loadPackageIntoCache_def loadJsonFile_def Let_def project_def)
  show ?thesis
    using torn bad loadPackageIntoCache_error_keeps_cache [OF torn]
      loadPackageIntoCache_error_keeps_cache [OF bad]
    by simp
qed

end
